theory Spec2Isabelle
  imports Main
begin

section \<open>JavaScript strings\<close>

text \<open>
  A JavaScript string is modelled as a \<^typ>\<open>string\<close>: a list of code units below 256.
  On that range the white space of \<^verbatim>\<open>String.prototype.trim\<close> and of the regular
  expression class \<^verbatim>\<open>\s\<close> is the same set: tab, line feed, vertical tab, form feed,
  carriage return, space and no-break space.
\<close>

definition is_space :: "char \<Rightarrow> bool" where
  "is_space c = (c = CHR 0x09 \<or> c = CHR 0x0A \<or> c = CHR 0x0B \<or> c = CHR 0x0C
      \<or> c = CHR 0x0D \<or> c = CHR 0x20 \<or> c = CHR 0xA0)"

text \<open>\<^verbatim>\<open>value.trim()\<close>: white space removed at both ends.\<close>

definition trim :: "string \<Rightarrow> string" where
  "trim s = rev (dropWhile is_space (rev (dropWhile is_space s)))"

text \<open>A call either returns a value or throws.\<close>

datatype 'a outcome = Returned 'a | Thrown

text \<open>
  \<^verbatim>\<open>value.toLowerCase()\<close> on code units below 256: the letters A to Z and the
  letters U+00C0 to U+00DE other than the multiplication sign U+00D7 are moved up by 32,
  which sets one bit of the code unit; every other code unit is kept.
\<close>

definition toLowerCase_char :: "char \<Rightarrow> char" where
  "toLowerCase_char c =
     (let n = (of_char c :: nat)
      in if (65 \<le> n \<and> n \<le> 90) \<or> (192 \<le> n \<and> n \<le> 222 \<and> n \<noteq> 215)
         then (case c of Char b0 b1 b2 b3 b4 b5 b6 b7 \<Rightarrow> Char b0 b1 b2 b3 b4 True b6 b7)
         else c)"

definition toLowerCase :: "string \<Rightarrow> string" where
  "toLowerCase s = map toLowerCase_char s"

text \<open>
  \<^verbatim>\<open>value.split(/\s+/)\<close>: the pieces between the maximal runs of white space, an
  empty piece where the string starts or ends with white space, and the one piece
  \<^verbatim>\<open>""\<close> for the empty string. \<open>split_from sep cur rest\<close> reads \<open>rest\<close> with the
  piece \<open>cur\<close> open; \<open>sep\<close> says that the last code unit read was white space.
\<close>

fun split_from :: "bool \<Rightarrow> string \<Rightarrow> string \<Rightarrow> string list" where
  "split_from sep cur [] = [cur]"
| "split_from sep cur (c # cs) =
     (if is_space c then (if sep then split_from True cur cs else cur # split_from True [] cs)
      else split_from False (cur @ [c]) cs)"

definition split_ws :: "string \<Rightarrow> string list" where
  "split_ws s = split_from False [] s"

text \<open>\<^verbatim>\<open>parts.join(sep)\<close>.\<close>

fun join :: "string \<Rightarrow> string list \<Rightarrow> string" where
  "join sep [] = []"
| "join sep [x] = x"
| "join sep (x # y # ys) = x @ sep @ join sep (y # ys)"

text \<open>
  A \<^verbatim>\<open>Set\<close> of strings keeps its members in insertion order; \<^verbatim>\<open>add\<close> of a member
  it already has changes nothing.
\<close>

definition set_add :: "string \<Rightarrow> string list \<Rightarrow> string list" where
  "set_add x members = (if x \<in> set members then members else members @ [x])"

definition new_Set :: "string list \<Rightarrow> string list" where
  "new_Set xs = fold set_add xs []"

text \<open>
  \<^verbatim>\<open>escapeHtml\<close>: five global replacements, one after the other, the ampersand first.
\<close>

definition replace_char :: "char \<Rightarrow> string \<Rightarrow> string \<Rightarrow> string" where
  "replace_char c r s = concat (map (\<lambda>x. if x = c then r else [x]) s)"

definition escapeHtml :: "string \<Rightarrow> string" where
  "escapeHtml value =
     replace_char (CHR 0x27) ''&#39;''
       (replace_char (CHR 0x22) ''&quot;''
         (replace_char CHR ''>'' ''&gt;''
           (replace_char CHR ''<'' ''&lt;''
             (replace_char CHR ''&'' ''&amp;'' value))))"

section \<open>The language resolver\<close>

text \<open>
  \<^verbatim>\<open>CODE_LANGUAGE_ALIASES\<close> is an object literal. Reading \<^verbatim>\<open>CODE_LANGUAGE_ALIASES[key]\<close>
  looks among the literal's own properties first and then among those of
  \<^verbatim>\<open>Object.prototype\<close>, which every object literal inherits; the inherited members are
  functions or objects, none of them a string and none of them \<^verbatim>\<open>null\<close> or
  \<^verbatim>\<open>undefined\<close>. A value read from the table is therefore a string or one of these
  built-in members, named here by the property that holds it.
\<close>

datatype js_value = JString string | JBuiltin string

definition CODE_LANGUAGE_ALIASES :: "(string \<times> string) list" where
  "CODE_LANGUAGE_ALIASES =
     [(''js'', ''javascript''), (''jsx'', ''javascript''), (''ts'', ''typescript''),
      (''tsx'', ''typescript''), (''sh'', ''bash''), (''shell'', ''bash''), (''bash'', ''bash''),
      (''zsh'', ''bash''), (''py'', ''python''), (''plaintext'', ''plaintext''),
      (''text'', ''plaintext''), (''jsonc'', ''json'')]"

definition Object_prototype :: "string list" where
  "Object_prototype =
     [''constructor'', ''__defineGetter__'', ''__defineSetter__'', ''hasOwnProperty'',
      ''__lookupGetter__'', ''__lookupSetter__'', ''isPrototypeOf'', ''propertyIsEnumerable'',
      ''toString'', ''valueOf'', ''__proto__'', ''toLocaleString'']"

definition get_property :: "(string \<times> string) list \<Rightarrow> string \<Rightarrow> js_value option" where
  "get_property obj key =
     (case map_of obj key of
        Some v \<Rightarrow> Some (JString v)
      | None \<Rightarrow> if key \<in> set Object_prototype then Some (JBuiltin key) else None)"

text \<open>
  \<^verbatim>\<open>normalizeLanguage(value: string | null | undefined)\<close>; \<open>None\<close> is \<^verbatim>\<open>null\<close> or
  \<^verbatim>\<open>undefined\<close>. The destructuring \<^verbatim>\<open>[firstTokenRaw] = base.split(/\s+/)\<close> takes the
  first piece, and \<^verbatim>\<open>??\<close> falls back only on \<^verbatim>\<open>null\<close> and \<^verbatim>\<open>undefined\<close>.
\<close>

definition normalizeLanguage :: "string option \<Rightarrow> js_value" where
  "normalizeLanguage value =
     (let base = toLowerCase (trim (case value of Some v \<Rightarrow> v | None \<Rightarrow> []))
      in if base = [] then JString ''plaintext''
         else (let firstToken = (case split_ws base of [] \<Rightarrow> base | firstTokenRaw # _ \<Rightarrow> firstTokenRaw)
               in case get_property CODE_LANGUAGE_ALIASES firstToken of
                    Some v \<Rightarrow> v
                  | None \<Rightarrow> JString firstToken))"

section \<open>The highlighter adapter\<close>

text \<open>
  The highlighter library is a parameter: \<open>getLanguage\<close> says whether a grammar is
  registered under a name, \<open>highlight\<close> returns the markup or throws.
  \<^verbatim>\<open>getHighlightedCode\<close> returns \<^verbatim>\<open>string | null\<close>; \<open>None\<close> is \<^verbatim>\<open>null\<close>.
\<close>

record hljs =
  getLanguage :: "string \<Rightarrow> bool"
  highlight :: "string \<Rightarrow> string \<Rightarrow> string outcome"

definition getHighlightedCode :: "hljs \<Rightarrow> string \<Rightarrow> string \<Rightarrow> string option" where
  "getHighlightedCode hl source language =
     (if source = [] then None
      else if language = [] \<or> language = ''plaintext'' then None
      else if \<not> getLanguage hl language then None
      else (case highlight hl source language of
              Returned v \<Rightarrow> Some v
            | Thrown \<Rightarrow> None))"

text \<open>The names under which the module registers a grammar when it is loaded.\<close>

definition registered_names :: "string list" where
  "registered_names =
     [''bash'', ''css'', ''javascript'', ''json'', ''markdown'', ''plaintext'', ''python'',
      ''sql'', ''typescript'', ''xml'', ''yaml'']"

section \<open>The image renderer\<close>

text \<open>
  An image token with its fields \<^verbatim>\<open>href\<close>, \<^verbatim>\<open>text\<close> and \<^verbatim>\<open>title\<close>; a field is
  \<open>None\<close> when \<^verbatim>\<open>typeof\<close> of it is not \<^verbatim>\<open>'string'\<close>.
  \<open>attr name v\<close> is the template \<^verbatim>\<open>name="v"\<close>.
\<close>

record image_token =
  token_href :: "string option"
  token_text :: "string option"
  token_title :: "string option"

definition attr :: "string \<Rightarrow> string \<Rightarrow> string" where
  "attr name v = name @ ''='' @ [CHR 0x22] @ v @ [CHR 0x22]"

definition renderImage :: "image_token \<Rightarrow> string" where
  "renderImage token =
     (let source = (case token_href token of Some h \<Rightarrow> trim h | None \<Rightarrow> []);
          altText = (case token_text token of Some t \<Rightarrow> t | None \<Rightarrow> []);
          titleText = (case token_title token of Some t \<Rightarrow> t | None \<Rightarrow> []);
          classes = [''markdown-image''];
          attributes = [attr ''src'' (escapeHtml source), attr ''alt'' (escapeHtml altText)];
          attributes = (if titleText \<noteq> [] then attributes @ [attr ''title'' (escapeHtml titleText)]
                        else attributes);
          attributes = attributes @
            [attr ''loading'' ''lazy'', attr ''decoding'' ''async'',
             attr ''referrerpolicy'' ''no-referrer'', attr ''fetchpriority'' ''auto'',
             attr ''class'' (join '' '' classes)]
      in ''<img '' @ join '' '' attributes @ ''>'')"

text \<open>
  The image renderer as the specification words it: the three values trimmed.
\<close>

definition renderImage_trimmed :: "image_token \<Rightarrow> string" where
  "renderImage_trimmed token =
     renderImage \<lparr>token_href = map_option trim (token_href token),
                  token_text = map_option trim (token_text token),
                  token_title = map_option trim (token_title token)\<rparr>"

section \<open>The anchor transform of the sanitize policy\<close>

text \<open>
  The attributes of an element, as the sanitizer hands them to a transform: an object
  from attribute name to value.
\<close>

type_synonym attributes = "string \<rightharpoonup> string"

text \<open>
  \<^verbatim>\<open>/^https?:\/\//i.test(href)\<close>: the value starts with \<open>http://\<close> or \<open>https://\<close>, the
  letters in either case.
\<close>

definition isExternal :: "string \<Rightarrow> bool" where
  "isExternal href =
     (toLowerCase (take 7 href) = ''http://'' \<or> toLowerCase (take 8 href) = ''https://'')"

text \<open>\<^verbatim>\<open>rel.split(/\s+/).map((token) => token.trim()).filter(Boolean)\<close>.\<close>

definition rel_tokens :: "string \<Rightarrow> string list" where
  "rel_tokens rel = filter (\<lambda>token. token \<noteq> []) (map trim (split_ws rel))"

text \<open>
  The transform of the policy for the tag \<open>a\<close>. \<^verbatim>\<open>attribs.href ?? ''\<close> reads a missing
  attribute as the empty string, and \<^verbatim>\<open>!nextAttribs.target\<close> holds for a missing and for
  an empty target.
\<close>

definition transform_a :: "string \<Rightarrow> attributes \<Rightarrow> string \<times> attributes" where
  "transform_a tagName attribs =
     (let href = (case attribs ''href'' of Some h \<Rightarrow> h | None \<Rightarrow> []);
          nextAttribs = attribs
      in if isExternal href
         then (let relTokens = rel_tokens (case attribs ''rel'' of Some r \<Rightarrow> r | None \<Rightarrow> []);
                   relSet = set_add ''noreferrer'' (set_add ''noopener'' (new_Set relTokens));
                   nextAttribs = nextAttribs(''rel'' \<mapsto> join '' '' relSet);
                   nextAttribs = (case nextAttribs ''target'' of
                                    None \<Rightarrow> nextAttribs(''target'' \<mapsto> ''_blank'')
                                  | Some t \<Rightarrow> if t = [] then nextAttribs(''target'' \<mapsto> ''_blank'')
                                              else nextAttribs)
               in (tagName, nextAttribs))
         else (tagName, nextAttribs))"

text \<open>
  An absolute http or https URL as the claim about anchors words it: a value that begins
  with the scheme \<open>http\<close> or \<open>https\<close> and a colon, the letters in either case.
\<close>

definition absolute_http_url :: "string \<Rightarrow> bool" where
  "absolute_http_url href =
     (toLowerCase (take 5 href) = ''http:'' \<or> toLowerCase (take 6 href) = ''https:'')"

text \<open>A string without white space.\<close>

definition no_space :: "string \<Rightarrow> bool" where
  "no_space s = (\<forall>c \<in> set s. \<not> is_space c)"

section \<open>The sanitize policy\<close>

text \<open>
  The options object that \<^verbatim>\<open>renderMarkdown\<close> passes to \<^verbatim>\<open>sanitizeHtml\<close>: allowed tags,
  allowed attributes per tag, allowed schemes, allowed schemes per tag, transforms per tag.
\<close>

record policy =
  allowedTags :: "string list"
  allowedAttributes :: "(string \<times> string list) list"
  allowedSchemes :: "string list"
  allowedSchemesByTag :: "(string \<times> string list) list"
  transformTags :: "(string \<times> (string \<Rightarrow> attributes \<Rightarrow> string \<times> attributes)) list"

text \<open>The tags and the attribute lists that the source adds to the library's defaults.\<close>

definition source_tags :: "string list" where
  "source_tags =
     [''h1'', ''h2'', ''h3'', ''h4'', ''h5'', ''h6'', ''img'', ''pre'', ''code'', ''blockquote'',
      ''hr'', ''table'', ''thead'', ''tbody'', ''tr'', ''th'', ''td'', ''figure'', ''figcaption'',
      ''span'', ''button'', ''dl'', ''dt'', ''dd'', ''del'', ''s'', ''details'', ''summary'']"

definition source_attributes :: "(string \<times> string list) list" where
  "source_attributes =
     [(''a'', [''href'', ''name'', ''target'', ''rel'', ''title'']),
      (''img'', [''src'', ''alt'', ''title'', ''width'', ''height'', ''class'', ''loading'',
                 ''decoding'', ''referrerpolicy'', ''fetchpriority'', ''srcset'', ''sizes'']),
      (''figure'', [''class'', ''data-language'']),
      (''figcaption'', [''class'']),
      (''pre'', [''class'']),
      (''code'', [''class'', ''data-language'']),
      (''span'', [''class'', ''aria-hidden'', ''data-checked'']),
      (''button'', [''type'', ''class'', ''data-action'', ''data-state'']),
      (''ul'', [''class'']),
      (''li'', [''class''])]"

text \<open>
  The policy of the pipeline. The library's default tags and default attribute lists are
  parameters. \<^verbatim>\<open>Array.from(new Set([...defaults, ...]))\<close> keeps the first occurrence of a
  tag; in \<^verbatim>\<open>{...defaults, a: ..., img: ...}\<close> the entries of the source come after the
  defaults and replace those with the same key, so a lookup finds the source's entry first.
\<close>

definition markdown_policy :: "string list \<Rightarrow> (string \<times> string list) list \<Rightarrow> policy" where
  "markdown_policy defaultTags defaultAttributes =
     \<lparr>allowedTags = new_Set (defaultTags @ source_tags),
      allowedAttributes = source_attributes @ defaultAttributes,
      allowedSchemes = [''http'', ''https'', ''mailto''],
      allowedSchemesByTag = [(''img'', [''http'', ''https'', ''data''])],
      transformTags = [(''a'', transform_a)]\<rparr>"

section \<open>The sanitizer\<close>

text \<open>
  Modelled from the spec: the HTML fragment as the sanitizer re-parses it, a sequence of
  text and element nodes; the library's parser and serializer are not in the source.
\<close>

datatype node = Text string | Element string attributes "node list"

text \<open>
  Modelled from the spec: the schemes allowed for a tag, the general list unless the
  policy has a list for the tag, which then replaces it (the per-tag override).
\<close>

definition schemes_for :: "policy \<Rightarrow> string \<Rightarrow> string list" where
  "schemes_for P tag =
     (case map_of (allowedSchemesByTag P) tag of
        Some schemes \<Rightarrow> schemes
      | None \<Rightarrow> allowedSchemes P)"

text \<open>
  Modelled from the spec: an attribute is kept when its name is allowed for its tag and,
  for \<open>href\<close> and \<open>src\<close>, its value uses no scheme outside the allowed set. The scheme
  that a value uses, if any, is the parameter \<open>url_scheme\<close>.
\<close>

definition attribute_kept ::
  "policy \<Rightarrow> (string \<Rightarrow> string option) \<Rightarrow> string \<Rightarrow> string \<Rightarrow> string \<Rightarrow> bool" where
  "attribute_kept P url_scheme tag name v =
     (case map_of (allowedAttributes P) tag of
        None \<Rightarrow> False
      | Some names \<Rightarrow>
          name \<in> set names \<and>
          (if name = ''href'' \<or> name = ''src''
           then (case url_scheme v of
                   None \<Rightarrow> True
                 | Some scheme \<Rightarrow> scheme \<in> set (schemes_for P tag))
           else True))"

text \<open>Modelled from the spec: every attribute that is not kept is dropped.\<close>

definition filter_attributes ::
  "policy \<Rightarrow> (string \<Rightarrow> string option) \<Rightarrow> string \<Rightarrow> attributes \<Rightarrow> attributes" where
  "filter_attributes P url_scheme tag attribs =
     (\<lambda>name. case attribs name of
                None \<Rightarrow> None
              | Some v \<Rightarrow> if attribute_kept P url_scheme tag name v then Some v else None)"

text \<open>Modelled from the spec: the transform of the policy for a tag, if it has one, rewrites the element.\<close>

definition apply_transform :: "policy \<Rightarrow> string \<Rightarrow> attributes \<Rightarrow> string \<times> attributes" where
  "apply_transform P tag attribs =
     (case map_of (transformTags P) tag of
        None \<Rightarrow> (tag, attribs)
      | Some transform \<Rightarrow> transform tag attribs)"

text \<open>
  Modelled from the spec: the filter of \<^verbatim>\<open>sanitizeHtml\<close>, which is not in the source. An
  element is transformed first; when its tag is allowed it is kept with the attributes
  that pass, around its sanitized content; when its tag is not allowed the tag is
  removed, and its sanitized content is retained or not, as the parameter
  \<open>keepsContent\<close> says for the tag.
\<close>

fun sanitize_node ::
  "policy \<Rightarrow> (string \<Rightarrow> string option) \<Rightarrow> (string \<Rightarrow> bool) \<Rightarrow> node \<Rightarrow> node list" where
  "sanitize_node P url_scheme keepsContent (Text t) = [Text t]"
| "sanitize_node P url_scheme keepsContent (Element tag attribs children) =
     (case apply_transform P tag attribs of
        (tagName, nextAttribs) \<Rightarrow>
          (let content = concat (map (sanitize_node P url_scheme keepsContent) children)
           in if tagName \<in> set (allowedTags P)
              then [Element tagName (filter_attributes P url_scheme tagName nextAttribs) content]
              else if keepsContent tagName then content else []))"

text \<open>Modelled from the spec: \<^verbatim>\<open>sanitize(html)\<close> on a parsed fragment.\<close>

definition sanitize ::
  "policy \<Rightarrow> (string \<Rightarrow> string option) \<Rightarrow> (string \<Rightarrow> bool) \<Rightarrow> node list \<Rightarrow> node list" where
  "sanitize P url_scheme keepsContent fragment =
     concat (map (sanitize_node P url_scheme keepsContent) fragment)"

text \<open>
  Modelled from the spec: the library function \<^verbatim>\<open>sanitizeHtml(html, options)\<close>, which is not
  in the source. It re-parses the rendered HTML, filters the fragment against the options
  and returns the result as HTML text. The parser and the serializer of the library are
  the parameters \<open>parse_html\<close> and \<open>serialize\<close>.
\<close>

definition sanitizeHtml_filter ::
  "(string \<Rightarrow> node list) \<Rightarrow> (node list \<Rightarrow> string) \<Rightarrow> (string \<Rightarrow> string option)
    \<Rightarrow> (string \<Rightarrow> bool) \<Rightarrow> string \<Rightarrow> policy \<Rightarrow> string outcome" where
  "sanitizeHtml_filter parse_html serialize url_scheme keepsContent html options =
     Returned (serialize (sanitize options url_scheme keepsContent (parse_html html)))"

text \<open>The elements of a node with their attributes, in document order.\<close>

fun elements :: "node \<Rightarrow> (string \<times> attributes) list" where
  "elements (Text t) = []"
| "elements (Element tag attribs children) = (tag, attribs) # concat (map elements children)"

text \<open>
  What the policy leaves on an element of the output: an anchor whose \<open>href\<close> passes the
  test of the transform has a \<open>rel\<close> with the tokens \<open>noopener\<close> and \<open>noreferrer\<close>, no
  token twice, and a non-empty \<open>target\<close>.
\<close>

definition anchor_ok :: "string \<times> attributes \<Rightarrow> bool" where
  "anchor_ok e =
     (case e of (tag, attribs) \<Rightarrow>
        (case attribs ''href'' of
           None \<Rightarrow> True
         | Some u \<Rightarrow>
             if tag = ''a'' \<and> isExternal u
             then (case (attribs ''rel'', attribs ''target'') of
                     (Some rel, Some target) \<Rightarrow>
                       ''noopener'' \<in> set (rel_tokens rel) \<and> ''noreferrer'' \<in> set (rel_tokens rel)
                       \<and> distinct (rel_tokens rel) \<and> target \<noteq> []
                   | _ \<Rightarrow> False)
             else True))"

text \<open>A missing value, a value without scheme or a value whose scheme is in the list.\<close>

definition url_ok :: "(string \<Rightarrow> string option) \<Rightarrow> string list \<Rightarrow> string option \<Rightarrow> bool" where
  "url_ok url_scheme schemes v =
     (case v of
        None \<Rightarrow> True
      | Some u \<Rightarrow> (case url_scheme u of None \<Rightarrow> True | Some scheme \<Rightarrow> scheme \<in> set schemes))"

section \<open>The definition list extension\<close>

text \<open>
  The term line, \<^verbatim>\<open>/^( {0,3}(?![:\s])\S[^\n]*)(?:\n|$)/\<close>, read on a slice: at most three
  spaces, then a code unit that is neither a colon nor white space, then the rest of the
  line; with four spaces or more the code unit after the third space is a space and the
  look-ahead fails, and taking fewer spaces leaves a space under the look-ahead as well.
  The result is the pair of the whole match, with the line feed when there is one, and
  of the first group, the line without it.
\<close>

definition term_match :: "string \<Rightarrow> (string \<times> string) option" where
  "term_match slice =
     (let indent = takeWhile (\<lambda>c. c = CHR '' '') slice;
          rest = dropWhile (\<lambda>c. c = CHR '' '') slice
      in if length indent \<le> 3
         then (case rest of
                 [] \<Rightarrow> None
               | c # _ \<Rightarrow>
                   if c = CHR '':'' \<or> is_space c then None
                   else (let line = takeWhile (\<lambda>c. c \<noteq> CHR 0x0A) slice
                         in case dropWhile (\<lambda>c. c \<noteq> CHR 0x0A) slice of
                              [] \<Rightarrow> Some (line, line)
                            | _ # _ \<Rightarrow> Some (line @ [CHR 0x0A], line)))
         else None)"

text \<open>
  The definition line, \<^verbatim>\<open>/^( {0,3}:\s.*)(?:\n|$)/\<close>: at most three spaces, a colon, one
  white space code unit (a line feed is one), then the code units up to the next line
  terminator, which has to be a line feed or the end of the slice. The dot matches
  neither line feed nor carriage return, so a carriage return there makes the match fail.
\<close>

definition definition_match :: "string \<Rightarrow> (string \<times> string) option" where
  "definition_match ddSlice =
     (let indent = takeWhile (\<lambda>c. c = CHR '' '') ddSlice
      in if length indent \<le> 3
         then (case dropWhile (\<lambda>c. c = CHR '' '') ddSlice of
                 c # w # body \<Rightarrow>
                   if c = CHR '':'' \<and> is_space w
                   then (let line = indent @ c # w # takeWhile (\<lambda>c. c \<noteq> CHR 0x0A \<and> c \<noteq> CHR 0x0D) body
                         in case dropWhile (\<lambda>c. c \<noteq> CHR 0x0A \<and> c \<noteq> CHR 0x0D) body of
                              [] \<Rightarrow> Some (line, line)
                            | e # _ \<Rightarrow> if e = CHR 0x0A then Some (line @ [e], line) else None)
                   else None
               | _ \<Rightarrow> None)
         else None)"

text \<open>
  \<^verbatim>\<open>content.replace(/^\s*:\s?/, '')\<close>: leading white space, a colon and at most one white
  space code unit after it are removed; a string whose first code unit after the white
  space is no colon is kept.
\<close>

definition strip_marker :: "string \<Rightarrow> string" where
  "strip_marker s =
     (case dropWhile is_space s of
        [] \<Rightarrow> s
      | c # t \<Rightarrow>
          if c = CHR '':''
          then (case t of [] \<Rightarrow> [] | w # u \<Rightarrow> if is_space w then u else t)
          else s)"

text \<open>\<^verbatim>\<open>/^\n{2,}/.test(slice)\<close>.\<close>

definition blank_start :: "string \<Rightarrow> bool" where
  "blank_start slice = (take 2 slice = [CHR 0x0A, CHR 0x0A])"

text \<open>
  An item \<^verbatim>\<open>{ term, descriptions }\<close> and the token \<^verbatim>\<open>{ type, raw, items }\<close>. The type
  \<open>'a\<close> is that of an inline token sequence, the result of \<^verbatim>\<open>this.lexer.inlineTokens\<close>,
  which is a parameter of the tokenizer.
\<close>

record 'a definition_item =
  item_term :: 'a
  item_descriptions :: "'a list"

record 'a definition_list_token =
  token_type :: string
  token_raw :: string
  token_items :: "'a definition_item list"

lemma definition_match_length:
  "definition_match s = Some (m0, m1) \<Longrightarrow> 0 < length m0"
  by (auto simp: definition_match_def Let_def split: list.splits if_splits)

lemma term_match_length:
  assumes "term_match s = Some (m0, m1)"
  shows "0 < length m0"
proof (cases "dropWhile (\<lambda>c. c = CHR '' '') s")
  case Nil
  then have "term_match s = None"
    by (simp add: term_match_def del: dropWhile_eq_Nil_conv)
  with assms show ?thesis by simp
next
  case (Cons c r)
  then have ne: "s \<noteq> []" by auto
  show ?thesis
  proof (cases "dropWhile (\<lambda>c. c \<noteq> CHR 0x0A) s")
    case Nil
    then have tw: "takeWhile (\<lambda>c. c \<noteq> CHR 0x0A) s = s"
      by (metis append_Nil2 takeWhile_dropWhile_id)
    from assms Cons Nil have "m0 = takeWhile (\<lambda>c. c \<noteq> CHR 0x0A) s"
      by (simp add: term_match_def Let_def del: dropWhile_eq_Nil_conv split: if_splits)
    with tw have "m0 = s" by simp
    with ne show ?thesis by simp
  next
    case (Cons e es)
    with assms \<open>dropWhile (\<lambda>c. c = CHR '' '') s = c # r\<close>
    have "m0 = takeWhile (\<lambda>c. c \<noteq> CHR 0x0A) s @ [CHR 0x0A]"
      by (auto simp: term_match_def Let_def split: if_splits)
    then show ?thesis by simp
  qed
qed

text \<open>
  The inner loop collects the definition lines that follow a term. Its state is the
  position, the descriptions so far and the flag \<^verbatim>\<open>hasDefinition\<close>.
\<close>

function definitions_loop ::
  "(string \<Rightarrow> 'a) \<Rightarrow> string \<Rightarrow> nat \<Rightarrow> 'a list \<Rightarrow> bool \<Rightarrow> nat \<times> 'a list \<times> bool" where
  "definitions_loop inlineTokens src position descriptions hasDefinition =
     (if position < length src
      then (case definition_match (drop position src) of
              None \<Rightarrow> (position, descriptions, hasDefinition)
            | Some (m0, m1) \<Rightarrow>
                definitions_loop inlineTokens src (position + length m0)
                  (descriptions @ [inlineTokens (trim (strip_marker m1))]) True)
      else (position, descriptions, hasDefinition))"
  by pat_completeness auto
termination
proof (relation "measure (\<lambda>(inl, src, position, ds, h). length src - position)", goal_cases)
  case 1
  then show ?case by simp
next
  case (2 inl src position ds h m m0 m1)
  then have "0 < length m0"
    using definition_match_length [of "drop position src" m0 m1] by simp
  with 2 show ?case
    by (simp del: length_greater_0_conv)
qed

declare definitions_loop.simps [simp del]

lemma definitions_loop_position:
  "definitions_loop inl src position ds h = (p, ds', h') \<Longrightarrow> position \<le> p"
proof (induction inl src position ds h rule: definitions_loop.induct)
  case (1 inl src position ds h)
  show ?case
  proof (cases "position < length src")
    case False
    with "1.prems" show ?thesis by (simp add: definitions_loop.simps)
  next
    case True
    show ?thesis
    proof (cases "definition_match (drop position src)")
      case None
      with True "1.prems" show ?thesis by (simp add: definitions_loop.simps)
    next
      case (Some m)
      obtain m0 m1 where m: "m = (m0, m1)" by (cases m)
      have "definitions_loop inl src (position + length m0)
              (ds @ [inl (trim (strip_marker m1))]) True = (p, ds', h')"
        using "1.prems" True Some m by (simp add: definitions_loop.simps)
      then have "position + length m0 \<le> p"
        using "1.IH" True Some m by simp
      then show ?thesis by simp
    qed
  qed
qed

text \<open>
  The outer loop, one entry per round. Its state is the position, \<^verbatim>\<open>lastPosition\<close> and
  the items so far. A term with no definition line sets the position back to the start
  of the term and leaves the loop.
\<close>

function items_loop ::
  "(string \<Rightarrow> 'a) \<Rightarrow> string \<Rightarrow> nat \<Rightarrow> nat \<Rightarrow> 'a definition_item list
    \<Rightarrow> nat \<times> nat \<times> 'a definition_item list" where
  "items_loop inlineTokens src position lastPosition items =
     (if position < length src
      then (let slice = drop position src
            in if slice = [] \<or> blank_start slice then (position, lastPosition, items)
               else (case term_match slice of
                       None \<Rightarrow> (position, lastPosition, items)
                     | Some (m0, termContent) \<Rightarrow>
                         (case definitions_loop inlineTokens src (position + length m0) [] False of
                            (position', descriptions, hasDefinition) \<Rightarrow>
                              if \<not> hasDefinition then (position, lastPosition, items)
                              else (let items' = items @
                                          [\<lparr>item_term = inlineTokens (trim termContent),
                                            item_descriptions = descriptions\<rparr>];
                                        position'' = position' +
                                          length (takeWhile (\<lambda>c. c = CHR 0x0A) (drop position' src))
                                    in case term_match (drop position'' src) of
                                         None \<Rightarrow> (position'', position'', items')
                                       | Some _ \<Rightarrow>
                                           items_loop inlineTokens src position'' position'' items'))))
      else (position, lastPosition, items))"
  by pat_completeness auto
termination
proof (relation "measure (\<lambda>(inl, src, position, lp, items). length src - position)", goal_cases)
  case 1
  then show ?case by simp
next
  case (2 inl src position lastPosition items slice m m0 termContent position' r descriptions
      hasDefinition items' position'' next_term)
  then have "0 < length m0" and "position + length m0 \<le> position'"
    using term_match_length [of slice m0 termContent]
      definitions_loop_position [of inl src "position + length m0" "[]" False position'
        descriptions hasDefinition]
    by simp_all
  with 2 show ?case
    by (simp del: length_greater_0_conv)
qed

declare items_loop.simps [simp del]

text \<open>The tokenizer returns \<^verbatim>\<open>undefined\<close>, here \<open>None\<close>, when it has no item.\<close>

definition tokenizer :: "(string \<Rightarrow> 'a) \<Rightarrow> string \<Rightarrow> 'a definition_list_token option" where
  "tokenizer inlineTokens src =
     (case items_loop inlineTokens src 0 0 [] of
        (position, lastPosition, items) \<Rightarrow>
          if items = [] then None
          else (let consumed = (if 0 < lastPosition then lastPosition else position)
                in Some \<lparr>token_type = ''definitionList'', token_raw = take consumed src,
                         token_items = items\<rparr>))"

text \<open>
  The renderer of the token; \<^verbatim>\<open>this.parser.parseInline\<close> is a parameter, and
  \<^verbatim>\<open>parts.join('')\<close> concatenates the parts.
\<close>

definition renderer :: "('a \<Rightarrow> string) \<Rightarrow> 'a definition_list_token \<Rightarrow> string" where
  "renderer parseInline token =
     (let parts = [''<dl>''] @
            concat (map (\<lambda>item.
                (''<dt>'' @ parseInline (item_term item) @ ''</dt>'')
                  # map (\<lambda>description. ''<dd>'' @ parseInline description @ ''</dd>'')
                      (item_descriptions item))
              (token_items token))
            @ [''</dl>'']
      in concat parts)"


section \<open>The pipeline entry point\<close>

text \<open>
  \<^verbatim>\<open>renderMarkdown(input: string | null | undefined)\<close>. The two library calls it makes,
  \<^verbatim>\<open>markdown.parse\<close> (tokenizing, rendering and, inside the code renderer, highlighting)
  and \<^verbatim>\<open>sanitizeHtml\<close>, are parameters; each may throw. \<^verbatim>\<open>sanitizeHtml\<close> is called with
  the rendered HTML and the options object, the policy of the pipeline, which is built
  from the library's default tags and default attribute lists, two more parameters. The
  function returns its result together with the library calls it made, in order.
\<close>

datatype js_input = JNull | JUndefined | JStr string

datatype lib_call = MarkedParse string | SanitizeHtml string

text \<open>
  \<^verbatim>\<open>markdown.parse\<close> returns a string or a promise; \<^verbatim>\<open>typeof parsed === 'string'\<close> is
  modelled by an option, \<open>None\<close> being the value that is not a string.
\<close>

definition renderMarkdown ::
  "(string \<Rightarrow> string option outcome) \<Rightarrow> (string \<Rightarrow> policy \<Rightarrow> string outcome)
    \<Rightarrow> string list \<Rightarrow> (string \<times> string list) list \<Rightarrow> js_input
    \<Rightarrow> string outcome \<times> lib_call list" where
  "renderMarkdown parse sanitizeHtml defaultTags defaultAttributes input =
     (let source = (case input of JStr s \<Rightarrow> s | JNull \<Rightarrow> [] | JUndefined \<Rightarrow> [])
      in if trim source = [] then (Returned [], [])
         else (case parse source of
                 Thrown \<Rightarrow> (Thrown, [MarkedParse source])
               | Returned parsed \<Rightarrow>
                   (let html = (case parsed of Some h \<Rightarrow> h | None \<Rightarrow> [])
                    in (sanitizeHtml html (markdown_policy defaultTags defaultAttributes),
                        [MarkedParse source, SanitizeHtml html]))))"

section \<open>Properties\<close>

lemma dropWhile_all: "list_all P s \<Longrightarrow> dropWhile P s = []"
  by (induction s) simp_all

lemma trim_all_space: "list_all is_space s \<Longrightarrow> trim s = []"
  by (simp add: trim_def dropWhile_all)

text \<open>
  C4: for an input string that is empty or made of white space only, renderMarkdown
  returns the empty string and has called neither \<^verbatim>\<open>markdown.parse\<close> (tokenizing,
  rendering, highlighting) nor \<^verbatim>\<open>sanitizeHtml\<close>; the inputs \<^verbatim>\<open>""\<close> and
  \<^verbatim>\<open>"   \n"\<close> are two such strings.
\<close>

theorem renderMarkdown_blank:
  "list_all is_space s \<Longrightarrow>
     renderMarkdown parse sanitizeHtml defaultTags defaultAttributes (JStr s) = (Returned [], [])"
  by (simp add: renderMarkdown_def trim_all_space)

theorem renderMarkdown_blank_witness:
  "renderMarkdown (\<lambda>s. Thrown) (\<lambda>h options. Thrown) [] [] (JStr []) = (Returned [], [])
   \<and> renderMarkdown (\<lambda>s. Thrown) (\<lambda>h options. Thrown) [] []
         (JStr [CHR 0x20, CHR 0x20, CHR 0x20, CHR 0x0A])
       = (Returned [], [])"
  using renderMarkdown_blank [of "[]" "\<lambda>s. Thrown" "\<lambda>h options. Thrown" "[]" "[]"]
    renderMarkdown_blank [of "[CHR 0x20, CHR 0x20, CHR 0x20, CHR 0x0A]" "\<lambda>s. Thrown"
      "\<lambda>h options. Thrown" "[]" "[]"]
  by (simp add: is_space_def)

text \<open>
  C10: renderMarkdown accepts \<^verbatim>\<open>null\<close> and \<^verbatim>\<open>undefined\<close>; for both it returns the
  empty string, as for the empty source, throws nothing and calls no library.
\<close>

theorem renderMarkdown_null_undefined:
  "renderMarkdown parse sanitizeHtml defaultTags defaultAttributes JNull = (Returned [], [])
   \<and> renderMarkdown parse sanitizeHtml defaultTags defaultAttributes JUndefined = (Returned [], [])
   \<and> renderMarkdown parse sanitizeHtml defaultTags defaultAttributes JNull
       = renderMarkdown parse sanitizeHtml defaultTags defaultAttributes (JStr [])"
  by (simp add: renderMarkdown_def trim_def)

text \<open>
  C7: the language resolver. The empty and the blank tag give \<open>plaintext\<close>, \<open>TS\<close> and
  \<open>tsx\<close> give \<open>typescript\<close>, also with a modifier after white space; but the tag
  \<open>constructor\<close>, which is no key of the alias table, is not mapped to itself: the table
  lookup finds the member the table inherits from \<^verbatim>\<open>Object.prototype\<close>, and the
  resolver returns that built-in function, not a string.
\<close>

theorem normalizeLanguage_constructor:
  "normalizeLanguage (Some ''constructor'') = JBuiltin ''constructor''
   \<and> normalizeLanguage (Some ''constructor'') \<noteq> JString ''constructor''
   \<and> map_of CODE_LANGUAGE_ALIASES ''constructor'' = None
   \<and> normalizeLanguage (Some []) = JString ''plaintext''
   \<and> normalizeLanguage (Some ''   '') = JString ''plaintext''
   \<and> normalizeLanguage (Some ''TS'') = JString ''typescript''
   \<and> normalizeLanguage (Some ''tsx'') = JString ''typescript''
   \<and> normalizeLanguage (Some ''Tsx title=x'') = JString ''typescript''
   \<and> normalizeLanguage (Some ''Rust'') = JString ''rust''"
  by (simp add: normalizeLanguage_def toLowerCase_def toLowerCase_char_def trim_def is_space_def
      split_ws_def get_property_def CODE_LANGUAGE_ALIASES_def Object_prototype_def)

text \<open>
  C8: the highlighter adapter returns none exactly when the source is empty, the
  language is \<open>plaintext\<close>, no grammar is registered for the language, or the highlighter
  throws; a throw of the highlighter is turned into none. No grammar is registered under
  the empty name.
\<close>

theorem getHighlightedCode_none:
  assumes "\<not> getLanguage hl []"
  shows "(getHighlightedCode hl source language = None) =
     (source = [] \<or> language = ''plaintext'' \<or> \<not> getLanguage hl language
      \<or> highlight hl source language = Thrown)"
  using assms by (auto simp: getHighlightedCode_def split: outcome.splits)

theorem getHighlightedCode_none_witness:
  "\<not> getLanguage \<lparr>getLanguage = (\<lambda>l. l \<in> set registered_names),
        highlight = (\<lambda>s l. if l = ''sql'' then Thrown else Returned s)\<rparr> []
   \<and> getHighlightedCode \<lparr>getLanguage = (\<lambda>l. l \<in> set registered_names),
        highlight = (\<lambda>s l. if l = ''sql'' then Thrown else Returned s)\<rparr> ''select 1'' ''sql'' = None
   \<and> getHighlightedCode \<lparr>getLanguage = (\<lambda>l. l \<in> set registered_names),
        highlight = (\<lambda>s l. if l = ''sql'' then Thrown else Returned s)\<rparr> ''x = 1'' ''python''
       = Some ''x = 1''"
  using getHighlightedCode_none [of "\<lparr>getLanguage = (\<lambda>l. l \<in> set registered_names),
        highlight = (\<lambda>s l. if l = ''sql'' then Thrown else Returned s)\<rparr>" "''select 1''" "''sql''"]
  by (simp add: registered_names_def getHighlightedCode_def)

text \<open>
  C9, as the code has it: the image renderer emits an \<open>img\<close> whose \<open>src\<close> is the trimmed
  and escaped \<open>href\<close>, whose \<open>alt\<close> and, when the title is a non-empty string,
  \<open>title\<close> are the escaped token values as they are, not trimmed, followed by the fixed
  attributes \<open>loading\<close>, \<open>decoding\<close>, \<open>referrerpolicy\<close>, \<open>fetchpriority\<close> and
  \<open>class\<close>. Nothing in it looks at what the URL refers to.
\<close>

theorem renderImage_attributes:
  "renderImage token =
     ''<img ''
       @ attr ''src'' (escapeHtml (case token_href token of Some h \<Rightarrow> trim h | None \<Rightarrow> []))
       @ '' '' @ attr ''alt'' (escapeHtml (case token_text token of Some a \<Rightarrow> a | None \<Rightarrow> []))
       @ (case token_title token of
            Some t \<Rightarrow> if t = [] then [] else '' '' @ attr ''title'' (escapeHtml t)
          | None \<Rightarrow> [])
       @ '' '' @ attr ''loading'' ''lazy'' @ '' '' @ attr ''decoding'' ''async''
       @ '' '' @ attr ''referrerpolicy'' ''no-referrer'' @ '' '' @ attr ''fetchpriority'' ''auto''
       @ '' '' @ attr ''class'' ''markdown-image'' @ ''>''"
  by (simp add: renderImage_def split: option.splits)

text \<open>
  The claim C9 as stated fails: the alternative text \<open>" x "\<close> is emitted with its
  spaces, where the claim has it trimmed.
\<close>

theorem renderImage_alt_not_trimmed:
  "renderImage \<lparr>token_href = Some '' a.png '', token_text = Some '' x '', token_title = None\<rparr> =
     ''<img '' @ attr ''src'' ''a.png'' @ '' '' @ attr ''alt'' '' x ''
       @ '' '' @ attr ''loading'' ''lazy'' @ '' '' @ attr ''decoding'' ''async''
       @ '' '' @ attr ''referrerpolicy'' ''no-referrer'' @ '' '' @ attr ''fetchpriority'' ''auto''
       @ '' '' @ attr ''class'' ''markdown-image'' @ ''>''
   \<and> renderImage \<lparr>token_href = Some '' a.png '', token_text = Some '' x '', token_title = None\<rparr>
       \<noteq> renderImage_trimmed \<lparr>token_href = Some '' a.png '', token_text = Some '' x '', token_title = None\<rparr>"
  by (simp add: renderImage_def renderImage_trimmed_def trim_def is_space_def escapeHtml_def
      replace_char_def attr_def)

lemma split_from_word:
  "no_space w \<Longrightarrow> w \<noteq> [] \<Longrightarrow> split_from sep cur (w @ rest) = split_from False (cur @ w) rest"
proof (induction w arbitrary: sep cur)
  case Nil
  then show ?case by simp
next
  case (Cons c w)
  show ?case
  proof (cases "w = []")
    case True
    with Cons.prems show ?thesis by (simp add: no_space_def)
  next
    case False
    with Cons show ?thesis by (simp add: no_space_def)
  qed
qed

lemma split_from_no_space:
  "no_space cur \<Longrightarrow> \<forall>p \<in> set (split_from sep cur s). no_space p"
proof (induction s arbitrary: sep cur)
  case Nil
  then show ?case by simp
next
  case (Cons c cs)
  have e: "no_space []" by (simp add: no_space_def)
  show ?case
  proof (cases "is_space c")
    case True
    then show ?thesis
      using Cons.IH [of cur True] Cons.IH [of "[]" True] Cons.prems e by simp
  next
    case False
    then have "no_space (cur @ [c])"
      using Cons.prems by (simp add: no_space_def)
    then show ?thesis
      using Cons.IH [of "cur @ [c]" False] False by simp
  qed
qed

lemma trim_no_space: "no_space s \<Longrightarrow> trim s = s"
proof (cases s)
  case Nil
  then show ?thesis by (simp add: trim_def)
next
  case (Cons c cs)
  assume ns: "no_space s"
  have a: "dropWhile is_space s = s"
    using ns Cons by (simp add: no_space_def)
  have "rev s \<noteq> []" using Cons by simp
  then obtain d ds where r: "rev s = d # ds" by (cases "rev s") auto
  then have "d \<in> set s" by (metis list.set_intros(1) set_rev)
  then have "\<not> is_space d" using ns by (simp add: no_space_def)
  then have "dropWhile is_space (rev s) = rev s" using r by simp
  then show ?thesis using a by (simp add: trim_def)
qed

lemma rel_tokens_props:
  "\<forall>t \<in> set (rel_tokens s). no_space t \<and> t \<noteq> []"
proof -
  have "\<forall>p \<in> set (split_ws s). no_space p"
    unfolding split_ws_def by (rule split_from_no_space) (simp add: no_space_def)
  then show ?thesis
    by (auto simp: rel_tokens_def trim_no_space)
qed

lemma split_from_join:
  "\<forall>t \<in> set ts. no_space t \<and> t \<noteq> [] \<Longrightarrow> ts \<noteq> [] \<Longrightarrow>
     split_from sep [] (join '' '' ts) = ts"
proof (induction ts arbitrary: sep)
  case Nil
  then show ?case by simp
next
  case (Cons x ts)
  have x: "no_space x" "x \<noteq> []" using Cons.prems by auto
  show ?case
  proof (cases ts)
    case Nil
    have "split_from sep [] (x @ []) = split_from False ([] @ x) []"
      using x by (rule split_from_word)
    then show ?thesis using Nil by simp
  next
    case (Cons y ys)
    have "split_from sep [] (x @ '' '' @ join '' '' ts)
          = split_from False ([] @ x) ('' '' @ join '' '' ts)"
      using x by (rule split_from_word)
    also have "\<dots> = x # split_from True [] (join '' '' ts)"
      by (simp add: is_space_def)
    also have "split_from True [] (join '' '' ts) = ts"
      using Cons.IH [of True] Cons.prems Cons by simp
    finally show ?thesis using Cons by simp
  qed
qed

lemma rel_tokens_join:
  assumes "\<forall>t \<in> set ts. no_space t \<and> t \<noteq> []"
  shows "rel_tokens (join '' '' ts) = ts"
proof (cases "ts = []")
  case True
  then show ?thesis by (simp add: rel_tokens_def split_ws_def trim_def)
next
  case False
  then have "split_ws (join '' '' ts) = ts"
    unfolding split_ws_def using assms by (intro split_from_join) auto
  moreover have "map trim ts = ts"
    by (rule map_idI) (use assms in \<open>simp add: trim_no_space\<close>)
  moreover have "filter (\<lambda>token. token \<noteq> []) ts = ts"
    using assms by (simp add: filter_id_conv)
  ultimately show ?thesis by (simp add: rel_tokens_def)
qed

lemma set_set_add: "set (set_add x s) = insert x (set s)"
  by (auto simp: set_add_def)

lemma distinct_set_add: "distinct s \<Longrightarrow> distinct (set_add x s)"
  by (simp add: set_add_def)

lemma fold_set_add: "set (fold set_add xs s) = set xs \<union> set s"
  by (induction xs arbitrary: s) (auto simp: set_set_add)

lemma distinct_fold_set_add: "distinct s \<Longrightarrow> distinct (fold set_add xs s)"
  by (induction xs arbitrary: s) (auto simp: distinct_set_add)

lemma set_new_Set: "set (new_Set xs) = set xs"
  by (simp add: new_Set_def fold_set_add)

lemma distinct_new_Set: "distinct (new_Set xs)"
  by (simp add: new_Set_def distinct_fold_set_add)

lemma new_rel_tokens:
  "\<forall>t \<in> set (set_add ''noreferrer'' (set_add ''noopener'' (new_Set (rel_tokens r)))).
     no_space t \<and> t \<noteq> []"
  using rel_tokens_props [of r]
  by (auto simp: set_set_add set_new_Set no_space_def is_space_def)

lemma rel_tokens_new_rel:
  "rel_tokens (join '' '' (set_add ''noreferrer'' (set_add ''noopener'' (new_Set (rel_tokens r)))))
     = set_add ''noreferrer'' (set_add ''noopener'' (new_Set (rel_tokens r)))"
  by (rule rel_tokens_join) (rule new_rel_tokens)

lemma transform_a_rel:
  assumes "isExternal (case attribs ''href'' of Some h \<Rightarrow> h | None \<Rightarrow> [])"
  shows "\<exists>rel. snd (transform_a tagName attribs) ''rel'' = Some rel
            \<and> ''noopener'' \<in> set (rel_tokens rel) \<and> ''noreferrer'' \<in> set (rel_tokens rel)
            \<and> set (rel_tokens rel) =
                set (rel_tokens (case attribs ''rel'' of Some r \<Rightarrow> r | None \<Rightarrow> []))
                  \<union> {''noopener'', ''noreferrer''}
            \<and> distinct (rel_tokens rel)"
proof -
  let ?r = "case attribs ''rel'' of Some r \<Rightarrow> r | None \<Rightarrow> []"
  let ?set = "set_add ''noreferrer'' (set_add ''noopener'' (new_Set (rel_tokens ?r)))"
  have rel: "snd (transform_a tagName attribs) ''rel'' = Some (join '' '' ?set)"
    using assms by (simp add: transform_a_def Let_def split: option.splits)
  have toks: "rel_tokens (join '' '' ?set) = ?set"
    by (rule rel_tokens_new_rel)
  have "set ?set = set (rel_tokens ?r) \<union> {''noopener'', ''noreferrer''}"
    by (auto simp: set_set_add set_new_Set)
  moreover have "distinct ?set"
    by (simp add: distinct_set_add distinct_new_Set)
  ultimately show ?thesis
    using rel toks by auto
qed

lemma transform_a_target:
  assumes "isExternal (case attribs ''href'' of Some h \<Rightarrow> h | None \<Rightarrow> [])"
  shows "snd (transform_a tagName attribs) ''target'' =
            (case attribs ''target'' of
               None \<Rightarrow> Some ''_blank''
             | Some t \<Rightarrow> if t = [] then Some ''_blank'' else Some t)"
  using assms by (simp add: transform_a_def Let_def split: option.splits)

lemma transform_a_others:
  assumes "k \<noteq> ''rel''" and "k \<noteq> ''target''"
  shows "snd (transform_a tagName attribs) k = attribs k"
  using assms by (simp add: transform_a_def Let_def split: option.splits)

lemma transform_a_local:
  assumes "\<not> isExternal (case attribs ''href'' of Some h \<Rightarrow> h | None \<Rightarrow> [])"
  shows "transform_a tagName attribs = (tagName, attribs)"
  using assms by (simp add: transform_a_def)

lemma definitions_loop_flag:
  "definitions_loop inl src position ds h = (p, ds', h') \<Longrightarrow> (h \<longrightarrow> ds \<noteq> []) \<Longrightarrow>
     (h' \<longrightarrow> ds' \<noteq> [])"
proof (induction inl src position ds h rule: definitions_loop.induct)
  case (1 inl src position ds h)
  show ?case
  proof (cases "position < length src")
    case False
    with "1.prems" show ?thesis by (simp add: definitions_loop.simps)
  next
    case True
    show ?thesis
    proof (cases "definition_match (drop position src)")
      case None
      with True "1.prems" show ?thesis by (simp add: definitions_loop.simps)
    next
      case (Some m)
      obtain m0 m1 where m: "m = (m0, m1)" by (cases m)
      have "definitions_loop inl src (position + length m0)
              (ds @ [inl (trim (strip_marker m1))]) True = (p, ds', h')"
        using "1.prems" True Some m by (simp add: definitions_loop.simps)
      then show ?thesis
        using "1.IH" [of "(m0, m1)" m0 m1] True Some m by simp
    qed
  qed
qed

lemma items_loop_stop:
  "\<not> position < length src \<or> blank_start (drop position src)
     \<or> term_match (drop position src) = None \<Longrightarrow>
   items_loop inl src position lastPosition items = (position, lastPosition, items)"
  by (subst items_loop.simps) (auto simp: Let_def)

lemma items_loop_backtrack:
  "position < length src \<Longrightarrow> \<not> blank_start (drop position src) \<Longrightarrow>
   term_match (drop position src) = Some (m0, termContent) \<Longrightarrow>
   definitions_loop inl src (position + length m0) [] False = (position', descriptions, False) \<Longrightarrow>
   items_loop inl src position lastPosition items = (position, lastPosition, items)"
  by (subst items_loop.simps) (simp add: Let_def)

lemma items_loop_last:
  "position < length src \<Longrightarrow> \<not> blank_start (drop position src) \<Longrightarrow>
   term_match (drop position src) = Some (m0, termContent) \<Longrightarrow>
   definitions_loop inl src (position + length m0) [] False = (position', descriptions, True) \<Longrightarrow>
   position'' = position' + length (takeWhile (\<lambda>c. c = CHR 0x0A) (drop position' src)) \<Longrightarrow>
   term_match (drop position'' src) = None \<Longrightarrow>
   items_loop inl src position lastPosition items =
     (position'', position'',
      items @ [\<lparr>item_term = inl (trim termContent), item_descriptions = descriptions\<rparr>])"
  by (subst items_loop.simps) (simp add: Let_def)

lemma items_loop_next:
  "position < length src \<Longrightarrow> \<not> blank_start (drop position src) \<Longrightarrow>
   term_match (drop position src) = Some (m0, termContent) \<Longrightarrow>
   definitions_loop inl src (position + length m0) [] False = (position', descriptions, True) \<Longrightarrow>
   position'' = position' + length (takeWhile (\<lambda>c. c = CHR 0x0A) (drop position' src)) \<Longrightarrow>
   term_match (drop position'' src) = Some next_term \<Longrightarrow>
   items_loop inl src position lastPosition items =
     items_loop inl src position'' position''
       (items @ [\<lparr>item_term = inl (trim termContent), item_descriptions = descriptions\<rparr>])"
  by (subst items_loop.simps) (simp add: Let_def)

lemma items_loop_descriptions:
  "items_loop inl src position lastPosition items = (p, lp, items') \<Longrightarrow>
     \<forall>item \<in> set items. item_descriptions item \<noteq> [] \<Longrightarrow>
     \<forall>item \<in> set items'. item_descriptions item \<noteq> []"
proof (induction inl src position lastPosition items rule: items_loop.induct)
  case (1 inl src position lastPosition items)
  let ?slice = "drop position src"
  show ?case
  proof (cases "\<not> position < length src \<or> blank_start ?slice \<or> term_match ?slice = None")
    case True
    then have "items_loop inl src position lastPosition items = (position, lastPosition, items)"
      by (rule items_loop_stop)
    with "1.prems" show ?thesis by simp
  next
    case False
    then have lt: "position < length src" and nb: "\<not> blank_start ?slice"
      and ne: "?slice \<noteq> []" by auto
    from False obtain m0 termContent where tm: "term_match ?slice = Some (m0, termContent)"
      by auto
    obtain position' descriptions hasDefinition where
      d: "definitions_loop inl src (position + length m0) [] False
            = (position', descriptions, hasDefinition)"
      by (cases "definitions_loop inl src (position + length m0) [] False")
    show ?thesis
    proof (cases hasDefinition)
      case False
      with lt nb tm d
      have "items_loop inl src position lastPosition items = (position, lastPosition, items)"
        by (simp add: items_loop_backtrack)
      with "1.prems" show ?thesis by simp
    next
      case hd: True
      have "descriptions \<noteq> []"
        using definitions_loop_flag [OF d] hd by simp
      define items1 where
        "items1 = items @ [\<lparr>item_term = inl (trim termContent), item_descriptions = descriptions\<rparr>]"
      define pos where
        "pos = position' + length (takeWhile (\<lambda>c. c = CHR 0x0A) (drop position' src))"
      have inv: "\<forall>item \<in> set items1. item_descriptions item \<noteq> []"
        using "1.prems"(2) \<open>descriptions \<noteq> []\<close> by (auto simp: items1_def)
      show ?thesis
      proof (cases "term_match (drop pos src)")
        case None
        have "items_loop inl src position lastPosition items = (pos, pos, items1)"
          unfolding items1_def
          using lt nb tm d hd pos_def None by (simp add: items_loop_last)
        with "1.prems"(1) inv show ?thesis by simp
      next
        case (Some next_term)
        have "items_loop inl src position lastPosition items = items_loop inl src pos pos items1"
          unfolding items1_def
          using lt nb tm _ pos_def Some by (rule items_loop_next) (use d hd in simp)
        with "1.prems"(1) have r: "items_loop inl src pos pos items1 = (p, lp, items')"
          by simp
        show ?thesis
          using "1.IH" [OF lt refl _ tm refl d [symmetric] refl _ items1_def pos_def Some r inv]
            ne nb hd by simp
      qed
    qed
  qed
qed

lemma blank_start_no_term: "blank_start s \<Longrightarrow> term_match s = None"
  by (cases s) (auto simp: blank_start_def term_match_def is_space_def)

lemma definitions_loop_none:
  "definition_match (drop position src) = None \<Longrightarrow>
     definitions_loop inl src position ds h = (position, ds, h)"
  by (subst definitions_loop.simps) simp

lemma tokenizer_backtrack:
  assumes "term_match src = Some (m0, m1)"
    and "definition_match (drop (length m0) src) = None"
  shows "tokenizer inl src = None"
proof -
  have nb: "\<not> blank_start (drop 0 src)"
    using assms(1) blank_start_no_term [of src] by auto
  have "src \<noteq> []"
    using assms(1) by (auto simp: term_match_def)
  then have lt: "0 < length src" by simp
  have d: "definitions_loop inl src (0 + length m0) [] False = (length m0, [], False)"
    using assms(2) by (simp add: definitions_loop_none)
  have "items_loop inl src 0 0 [] = (0, 0, [])"
    using lt nb _ d by (rule items_loop_backtrack) (use assms(1) in simp)
  then show ?thesis by (simp add: tokenizer_def)
qed

text \<open>
  C5: every item of a token that the tokenizer returns has at least one description,
  and the token has at least one item; when the term line at the start of the source is
  followed by no definition line, the tokenizer returns no token. A later term line with
  no definition line ends the list before it, as the third source of the examples shows.
\<close>

theorem tokenizer_descriptions:
  "(tokenizer inl src = Some token \<longrightarrow>
      token_items token \<noteq> [] \<and> (\<forall>item \<in> set (token_items token). item_descriptions item \<noteq> []))
   \<and> (term_match src = Some (m0, m1) \<and> definition_match (drop (length m0) src) = None \<longrightarrow>
        tokenizer inl src = None)"
proof (intro conjI impI)
  assume t: "tokenizer inl src = Some token"
  obtain p lp items where l: "items_loop inl src 0 0 [] = (p, lp, items)"
    by (cases "items_loop inl src 0 0 []")
  with t have "items \<noteq> []" and "token_items token = items"
    by (auto simp: tokenizer_def Let_def split: if_splits)
  moreover have "\<forall>item \<in> set items. item_descriptions item \<noteq> []"
    using items_loop_descriptions [OF l] by simp
  ultimately show "token_items token \<noteq> []"
    and "\<forall>item \<in> set (token_items token). item_descriptions item \<noteq> []"
    by simp_all
next
  assume "term_match src = Some (m0, m1) \<and> definition_match (drop (length m0) src) = None"
  then show "tokenizer inl src = None"
    by (simp add: tokenizer_backtrack)
qed

theorem tokenizer_descriptions_witness:
  "tokenizer (\<lambda>s. s) (''Apple'' @ [CHR 0x0A] @ '': A fruit'') =
     Some \<lparr>token_type = ''definitionList'', token_raw = ''Apple'' @ [CHR 0x0A] @ '': A fruit'',
       token_items = [\<lparr>item_term = ''Apple'', item_descriptions = [''A fruit'']\<rparr>]\<rparr>
   \<and> term_match (''Term'' @ [CHR 0x0A] @ ''Not a definition'') = Some (''Term'' @ [CHR 0x0A], ''Term'')
   \<and> definition_match (drop 5 (''Term'' @ [CHR 0x0A] @ ''Not a definition'')) = None
   \<and> tokenizer (\<lambda>s. s) (''Term'' @ [CHR 0x0A] @ ''Not a definition'') = None
   \<and> tokenizer (\<lambda>s. s) (''Apple'' @ [CHR 0x0A] @ '': A fruit'' @ [CHR 0x0A] @ ''Pear'') =
     Some \<lparr>token_type = ''definitionList'',
       token_raw = ''Apple'' @ [CHR 0x0A] @ '': A fruit'' @ [CHR 0x0A],
       token_items = [\<lparr>item_term = ''Apple'', item_descriptions = [''A fruit'']\<rparr>]\<rparr>"
  using tokenizer_descriptions [of "\<lambda>s. s" "''Apple'' @ [CHR 0x0A] @ '': A fruit''"
      "\<lparr>token_type = ''definitionList'', token_raw = ''Apple'' @ [CHR 0x0A] @ '': A fruit'',
        token_items = [\<lparr>item_term = ''Apple'', item_descriptions = [''A fruit'']\<rparr>]\<rparr>"
      "''Term'' @ [CHR 0x0A]" "''Term''"]
    tokenizer_descriptions [of "\<lambda>s. s" "''Term'' @ [CHR 0x0A] @ ''Not a definition''"
      "\<lparr>token_type = [], token_raw = [], token_items = []\<rparr>" "''Term'' @ [CHR 0x0A]" "''Term''"]
  by (simp add: tokenizer_def items_loop.simps definitions_loop.simps term_match_def
      definition_match_def blank_start_def strip_marker_def trim_def is_space_def Let_def)

text \<open>
  C6: on the source \<^verbatim>\<open>"Term\n: First def\n: Second def"\<close> the tokenizer returns one token
  that spans the whole source and holds one item, the term \<open>Term\<close> with the descriptions
  \<open>First def\<close> and \<open>Second def\<close> in this order, each given to the inline tokenizer; the
  renderer turns it into one \<open>dl\<close> with one \<open>dt\<close> followed by two \<open>dd\<close>.
\<close>

theorem definition_list_round_trip:
  "tokenizer inlineTokens (''Term'' @ [CHR 0x0A] @ '': First def'' @ [CHR 0x0A] @ '': Second def'') =
     Some \<lparr>token_type = ''definitionList'',
       token_raw = ''Term'' @ [CHR 0x0A] @ '': First def'' @ [CHR 0x0A] @ '': Second def'',
       token_items = [\<lparr>item_term = inlineTokens ''Term'',
         item_descriptions = [inlineTokens ''First def'', inlineTokens ''Second def'']\<rparr>]\<rparr>
   \<and> map_option (renderer parseInline)
        (tokenizer inlineTokens
          (''Term'' @ [CHR 0x0A] @ '': First def'' @ [CHR 0x0A] @ '': Second def'')) =
     Some (''<dl><dt>'' @ parseInline (inlineTokens ''Term'') @ ''</dt><dd>''
       @ parseInline (inlineTokens ''First def'') @ ''</dd><dd>''
       @ parseInline (inlineTokens ''Second def'') @ ''</dd></dl>'')"
  by (simp add: renderer_def tokenizer_def items_loop.simps definitions_loop.simps term_match_def
      definition_match_def blank_start_def strip_marker_def trim_def is_space_def Let_def)

lemma filter_attributes_url_ok:
  "name = ''href'' \<or> name = ''src'' \<Longrightarrow>
     url_ok us (schemes_for P tag) (filter_attributes P us tag attribs name)"
  by (auto simp: url_ok_def filter_attributes_def attribute_kept_def split: option.splits)

lemma sanitize_node_schemes:
  "(tag, attribs) \<in> set (concat (map elements (sanitize_node P us keep n))) \<Longrightarrow>
     name = ''href'' \<or> name = ''src'' \<Longrightarrow>
     url_ok us (schemes_for P tag) (attribs name)"
proof (induction n arbitrary: tag attribs)
  case (Text t)
  then show ?case by simp
next
  case (Element t a children)
  obtain tagName nextAttribs where tr: "apply_transform P t a = (tagName, nextAttribs)"
    by (cases "apply_transform P t a")
  let ?content = "concat (map (sanitize_node P us keep) children)"
  have kids: "(tag, attribs) \<in> set (concat (map elements ?content)) \<Longrightarrow>
      url_ok us (schemes_for P tag) (attribs name)"
    using Element.IH Element.prems(2) by auto
  show ?case
  proof (cases "tagName \<in> set (allowedTags P)")
    case True
    with Element.prems(1) tr
    have "(tag, attribs) = (tagName, filter_attributes P us tagName nextAttribs)
        \<or> (tag, attribs) \<in> set (concat (map elements ?content))"
      by (auto simp: Let_def)
    then show ?thesis
      using kids filter_attributes_url_ok [OF Element.prems(2)] by auto
  next
    case False
    with Element.prems(1) tr
    have "(tag, attribs) \<in> set (concat (map elements ?content))"
      by (auto simp: Let_def split: if_splits)
    then show ?thesis by (rule kids)
  qed
qed

lemma schemes_for_markdown:
  "schemes_for (markdown_policy dt da) tag =
     (if tag = ''img'' then [''http'', ''https'', ''data''] else [''http'', ''https'', ''mailto''])"
  by (simp add: schemes_for_def markdown_policy_def)

text \<open>
  C2: in the sanitized output, the \<open>href\<close> or \<open>src\<close> of an element uses no scheme other
  than \<open>http\<close>, \<open>https\<close> and, for \<open>img\<close>, \<open>data\<close>, for every other tag \<open>mailto\<close>;
  so no anchor keeps a \<open>javascript:\<close> \<open>href\<close>, and \<open>img\<close> is the only tag that may
  keep a \<open>data:\<close> value.
\<close>

theorem sanitize_schemes:
  "\<forall>(tag, attribs) \<in> set (concat (map elements (sanitize (markdown_policy dt da) us keep fragment))).
     \<forall>name u scheme.
       (name = ''href'' \<or> name = ''src'') \<and> attribs name = Some u \<and> us u = Some scheme \<longrightarrow>
       (if tag = ''img'' then scheme \<in> {''http'', ''https'', ''data''}
        else scheme \<in> {''http'', ''https'', ''mailto''})"
proof -
  {
    fix tag attribs name u scheme
    assume e: "(tag, attribs) \<in> set (concat (map elements (sanitize (markdown_policy dt da) us keep fragment)))"
      and n: "name = ''href'' \<or> name = ''src''"
      and u: "attribs name = Some u" "us u = Some scheme"
    from e obtain n0 where "n0 \<in> set fragment"
      and m: "(tag, attribs) \<in> set (concat (map elements (sanitize_node (markdown_policy dt da) us keep n0)))"
      by (auto simp: sanitize_def)
    have "url_ok us (schemes_for (markdown_policy dt da) tag) (attribs name)"
      using m n by (rule sanitize_node_schemes)
    then have "scheme \<in> set (schemes_for (markdown_policy dt da) tag)"
      using u by (simp add: url_ok_def)
    then have "if tag = ''img'' then scheme \<in> {''http'', ''https'', ''data''}
        else scheme \<in> {''http'', ''https'', ''mailto''}"
      by (simp add: schemes_for_markdown split: if_splits)
  }
  then show ?thesis by blast
qed

theorem sanitize_schemes_witness:
  "map fst (concat (map elements
      (sanitize (markdown_policy [''a'', ''p''] [])
        (\<lambda>u. if u = ''javascript:alert(1)'' then Some ''javascript''
              else if u = ''data:image/png;base64,AAAA'' then Some ''data'' else None)
        (\<lambda>tag. True)
        [Element ''a'' [''href'' \<mapsto> ''javascript:alert(1)''] [Text ''x''],
         Element ''a'' [''href'' \<mapsto> ''data:image/png;base64,AAAA''] [],
         Element ''img'' [''src'' \<mapsto> ''data:image/png;base64,AAAA''] []])))
     = [''a'', ''a'', ''img'']
   \<and> map (\<lambda>(tag, attribs). (attribs ''href'', attribs ''src'')) (concat (map elements
      (sanitize (markdown_policy [''a'', ''p''] [])
        (\<lambda>u. if u = ''javascript:alert(1)'' then Some ''javascript''
              else if u = ''data:image/png;base64,AAAA'' then Some ''data'' else None)
        (\<lambda>tag. True)
        [Element ''a'' [''href'' \<mapsto> ''javascript:alert(1)''] [Text ''x''],
         Element ''a'' [''href'' \<mapsto> ''data:image/png;base64,AAAA''] [],
         Element ''img'' [''src'' \<mapsto> ''data:image/png;base64,AAAA''] []])))
     = [(None, None), (None, None), (None, Some ''data:image/png;base64,AAAA'')]"
  using sanitize_schemes [of "[''a'', ''p'']" "[]"
      "\<lambda>u. if u = ''javascript:alert(1)'' then Some ''javascript''
              else if u = ''data:image/png;base64,AAAA'' then Some ''data'' else None"
      "\<lambda>tag. True"
      "[Element ''a'' [''href'' \<mapsto> ''javascript:alert(1)''] [Text ''x''],
        Element ''a'' [''href'' \<mapsto> ''data:image/png;base64,AAAA''] [],
        Element ''img'' [''src'' \<mapsto> ''data:image/png;base64,AAAA''] []]"]
  by (simp add: sanitize_def markdown_policy_def source_tags_def source_attributes_def
      new_Set_def set_add_def apply_transform_def transform_a_def isExternal_def
      toLowerCase_def toLowerCase_char_def filter_attributes_def attribute_kept_def
      schemes_for_def)

lemma fold_set_add_distinct:
  "distinct (s @ xs) \<Longrightarrow> fold set_add xs s = s @ xs"
  by (induction xs arbitrary: s) (auto simp: set_add_def)

lemma new_Set_distinct: "distinct xs \<Longrightarrow> new_Set xs = xs"
  using fold_set_add_distinct [of "[]" xs] by (simp add: new_Set_def)

lemma set_add_member: "x \<in> set s \<Longrightarrow> set_add x s = s"
  by (simp add: set_add_def)

lemma new_rel_fixed:
  fixes r :: string
  defines "relSet \<equiv> set_add ''noreferrer'' (set_add ''noopener'' (new_Set (rel_tokens r)))"
  shows "set_add ''noreferrer'' (set_add ''noopener'' (new_Set (rel_tokens (join '' '' relSet))))
           = relSet"
proof -
  have t: "rel_tokens (join '' '' relSet) = relSet"
    unfolding relSet_def by (rule rel_tokens_new_rel)
  have d: "distinct relSet"
    unfolding relSet_def by (simp add: distinct_set_add distinct_new_Set)
  have m: "''noopener'' \<in> set relSet" "''noreferrer'' \<in> set relSet"
    unfolding relSet_def by (simp_all add: set_set_add)
  show ?thesis
    using m by (simp add: t new_Set_distinct [OF d] set_add_member)
qed

lemma isExternal_empty: "\<not> isExternal []"
  by (simp add: isExternal_def toLowerCase_def)

lemma a_names:
  "map_of (allowedAttributes (markdown_policy dt da)) ''a''
     = Some [''href'', ''name'', ''target'', ''rel'', ''title'']"
  by (simp add: markdown_policy_def source_attributes_def)

lemma filter_attributes_idem:
  "filter_attributes P us tag (filter_attributes P us tag attribs) = filter_attributes P us tag attribs"
  by (rule ext) (simp add: filter_attributes_def split: option.splits)

lemma filter_attributes_sub:
  "filter_attributes P us tag attribs name = None
     \<or> filter_attributes P us tag attribs name = attribs name"
  by (simp add: filter_attributes_def split: option.splits)

lemma transform_a_filtered:
  "transform_a ''a''
      (filter_attributes (markdown_policy dt da) us ''a'' (snd (transform_a ''a'' attribs)))
     = (''a'', filter_attributes (markdown_policy dt da) us ''a'' (snd (transform_a ''a'' attribs)))"
proof -
  define P where "P = markdown_policy dt da"
  define kept where "kept = filter_attributes P us ''a'' (snd (transform_a ''a'' attribs))"
  have "transform_a ''a'' kept = (''a'', kept)"
  proof (cases "isExternal (case kept ''href'' of Some h \<Rightarrow> h | None \<Rightarrow> [])")
  case False
  then show ?thesis by (simp add: transform_a_def)
next
  case True
  then obtain h where kh: "kept ''href'' = Some h" and eh: "isExternal h"
    using isExternal_empty by (cases "kept ''href''") auto
  let ?next = "snd (transform_a ''a'' attribs)"
  have "?next ''href'' = Some h"
    using kh filter_attributes_sub [of P us "''a''" ?next "''href''"] by (simp add: kept_def)
  then have ah: "attribs ''href'' = Some h"
    by (simp add: transform_a_def Let_def split: if_splits option.splits)
  let ?r = "case attribs ''rel'' of Some r \<Rightarrow> r | None \<Rightarrow> []"
  let ?relSet = "set_add ''noreferrer'' (set_add ''noopener'' (new_Set (rel_tokens ?r)))"
  have nrel: "?next ''rel'' = Some (join '' '' ?relSet)"
    using ah eh by (simp add: transform_a_def Let_def split: option.splits)
  have "\<exists>t. ?next ''target'' = Some t \<and> t \<noteq> []"
    using ah eh by (simp add: transform_a_def Let_def split: option.splits)
  then obtain t where nt: "?next ''target'' = Some t" and t: "t \<noteq> []" by blast
  have krel: "kept ''rel'' = Some (join '' '' ?relSet)"
    using nrel by (simp add: kept_def filter_attributes_def attribute_kept_def P_def a_names)
  have kt: "kept ''target'' = Some t"
    using nt by (simp add: kept_def filter_attributes_def attribute_kept_def P_def a_names)
  have "transform_a ''a'' kept = (''a'', kept(''rel'' \<mapsto> join '' '' ?relSet))"
    using kh eh krel kt t new_rel_fixed [of ?r]
    by (simp add: transform_a_def Let_def)
  moreover have "kept(''rel'' \<mapsto> join '' '' ?relSet) = kept"
    using krel by (rule map_upd_triv)
  ultimately show ?thesis by simp
  qed
  then show ?thesis by (simp add: kept_def P_def)
qed

lemma apply_transform_markdown:
  "apply_transform (markdown_policy dt da) tag attribs =
     (if tag = ''a'' then transform_a ''a'' attribs else (tag, attribs))"
  by (simp add: apply_transform_def markdown_policy_def)

lemma fst_transform_a: "fst (transform_a tag attribs) = tag"
  by (simp add: transform_a_def Let_def split: option.splits)

lemma apply_transform_filtered:
  assumes "apply_transform (markdown_policy dt da) tag attribs = (tagName, nextAttribs)"
  shows "tagName = tag"
    and "apply_transform (markdown_policy dt da) tag
            (filter_attributes (markdown_policy dt da) us tag nextAttribs)
           = (tag, filter_attributes (markdown_policy dt da) us tag nextAttribs)"
proof -
  show tg: "tagName = tag"
    using assms fst_transform_a [of "''a''" attribs]
    by (auto simp: apply_transform_markdown split: if_splits)
  show "apply_transform (markdown_policy dt da) tag
            (filter_attributes (markdown_policy dt da) us tag nextAttribs)
           = (tag, filter_attributes (markdown_policy dt da) us tag nextAttribs)"
  proof (cases "tag = ''a''")
    case False
    then show ?thesis by (simp add: apply_transform_markdown)
  next
    case True
    then have "nextAttribs = snd (transform_a ''a'' attribs)"
      using assms by (simp add: apply_transform_markdown)
    then show ?thesis
      using True transform_a_filtered [of dt da us attribs]
      by (simp add: apply_transform_markdown)
  qed
qed

lemma concat_map_fixed:
  "(\<And>x. x \<in> set xs \<Longrightarrow> concat (map f (f x)) = f x) \<Longrightarrow>
     concat (map f (concat (map f xs))) = concat (map f xs)"
  by (induction xs) simp_all

lemma sanitize_node_idem:
  "concat (map (sanitize_node (markdown_policy dt da) us keep)
      (sanitize_node (markdown_policy dt da) us keep n))
     = sanitize_node (markdown_policy dt da) us keep n"
proof (induction n)
  case (Text t)
  then show ?case by simp
next
  case (Element tag attribs children)
  define P where "P = markdown_policy dt da"
  obtain tagName nextAttribs where tr: "apply_transform P tag attribs = (tagName, nextAttribs)"
    by (cases "apply_transform P tag attribs")
  have tg: "tagName = tag"
    using tr unfolding P_def by (rule apply_transform_filtered(1))
  have again: "apply_transform P tag (filter_attributes P us tag nextAttribs)
           = (tag, filter_attributes P us tag nextAttribs)"
    using tr unfolding P_def by (rule apply_transform_filtered(2))
  let ?content = "concat (map (sanitize_node P us keep) children)"
  have content: "concat (map (sanitize_node P us keep) ?content) = ?content"
    using Element.IH unfolding P_def by (rule concat_map_fixed)
  have "concat (map (sanitize_node P us keep) (sanitize_node P us keep (Element tag attribs children)))
     = sanitize_node P us keep (Element tag attribs children)"
  proof (cases "tag \<in> set (allowedTags P)")
    case True
    then show ?thesis
      using tr tg again content by (simp add: Let_def filter_attributes_idem)
  next
    case False
    then show ?thesis
      using tr tg content by (simp add: Let_def)
  qed
  then show ?case by (simp only: P_def)
qed

text \<open>
  On parsed fragments the filter is idempotent under the policy of the pipeline. This is
  a fact about node sequences only: it says nothing about the HTML text that the library
  returns and parses again.
\<close>

lemma sanitize_fragment_idempotent:
  "sanitize (markdown_policy dt da) us keep (sanitize (markdown_policy dt da) us keep fragment)
     = sanitize (markdown_policy dt da) us keep fragment"
  unfolding sanitize_def
  by (rule concat_map_fixed) (rule sanitize_node_idem)

lemma filter_a_rel_target:
  "name = ''rel'' \<or> name = ''target'' \<Longrightarrow>
     filter_attributes (markdown_policy dt da) us ''a'' attribs name = attribs name"
  by (auto simp: filter_attributes_def attribute_kept_def a_names split: option.splits)

lemma transform_a_external:
  assumes "attribs ''href'' = Some u" and "isExternal u"
  shows "\<exists>rel target. snd (transform_a tag attribs) ''rel'' = Some rel
           \<and> ''noopener'' \<in> set (rel_tokens rel) \<and> ''noreferrer'' \<in> set (rel_tokens rel)
           \<and> distinct (rel_tokens rel)
           \<and> snd (transform_a tag attribs) ''target'' = Some target \<and> target \<noteq> []"
proof -
  have e: "isExternal (case attribs ''href'' of Some h \<Rightarrow> h | None \<Rightarrow> [])"
    using assms by simp
  obtain rel where r: "snd (transform_a tag attribs) ''rel'' = Some rel"
    "''noopener'' \<in> set (rel_tokens rel)" "''noreferrer'' \<in> set (rel_tokens rel)"
    "distinct (rel_tokens rel)"
    using transform_a_rel [of attribs tag] e by blast
  have "\<exists>target. snd (transform_a tag attribs) ''target'' = Some target \<and> target \<noteq> []"
    using transform_a_target [of attribs tag] e by (simp split: option.splits)
  with r show ?thesis by blast
qed

lemma kept_anchor_ok:
  "anchor_ok (''a'', filter_attributes (markdown_policy dt da) us ''a'' (snd (transform_a ''a'' attribs)))"
proof (cases "filter_attributes (markdown_policy dt da) us ''a'' (snd (transform_a ''a'' attribs)) ''href''")
  case None
  then show ?thesis by (simp add: anchor_ok_def)
next
  case (Some u)
  then have "snd (transform_a ''a'' attribs) ''href'' = Some u"
    using filter_attributes_sub [of "markdown_policy dt da" us "''a''" "snd (transform_a ''a'' attribs)" "''href''"]
    by simp
  then have h: "attribs ''href'' = Some u" by (simp add: transform_a_others)
  show ?thesis
  proof (cases "isExternal u")
    case False
    with Some show ?thesis by (simp add: anchor_ok_def)
  next
    case True
    from transform_a_external [of attribs u "''a''"] h True
    obtain rel target where "snd (transform_a ''a'' attribs) ''rel'' = Some rel"
      "''noopener'' \<in> set (rel_tokens rel)" "''noreferrer'' \<in> set (rel_tokens rel)"
      "distinct (rel_tokens rel)"
      "snd (transform_a ''a'' attribs) ''target'' = Some target" "target \<noteq> []"
      by blast
    then show ?thesis
      using Some True by (simp add: anchor_ok_def filter_a_rel_target)
  qed
qed

lemma sanitize_node_anchors:
  "e \<in> set (concat (map elements (sanitize_node (markdown_policy dt da) us keep n))) \<Longrightarrow>
     anchor_ok e"
proof (induction n)
  case (Text t)
  then show ?case by simp
next
  case (Element tag attribs children)
  define P where "P = markdown_policy dt da"
  obtain tagName nextAttribs where tr: "apply_transform P tag attribs = (tagName, nextAttribs)"
    by (cases "apply_transform P tag attribs")
  let ?content = "concat (map (sanitize_node P us keep) children)"
  have kids: "e \<in> set (concat (map elements ?content)) \<Longrightarrow> anchor_ok e"
    using Element.IH unfolding P_def by auto
  have new: "anchor_ok (tagName, filter_attributes P us tagName nextAttribs)"
  proof (cases "tag = ''a''")
    case True
    then have "tagName = ''a''" and "nextAttribs = snd (transform_a ''a'' attribs)"
      using tr fst_transform_a [of "''a''" attribs]
      by (auto simp: P_def apply_transform_markdown)
    then show ?thesis
      using kept_anchor_ok [of dt da us attribs] by (simp add: P_def)
  next
    case False
    then have "tagName \<noteq> ''a''"
      using tr by (simp add: P_def apply_transform_markdown)
    then show ?thesis
      by (simp add: anchor_ok_def split: option.splits)
  qed
  have "e \<in> set (concat (map elements (sanitize_node P us keep (Element tag attribs children))))"
    using Element.prems by (simp only: P_def)
  then have "e = (tagName, filter_attributes P us tagName nextAttribs)
      \<or> e \<in> set (concat (map elements ?content))"
    using tr by (auto simp: Let_def split: if_splits)
  then show ?case using new kids by auto
qed

lemma sanitize_anchors:
  assumes "e \<in> set (concat (map elements (sanitize (markdown_policy dt da) us keep fragment)))"
  shows "anchor_ok e"
proof -
  from assms obtain n where "n \<in> set fragment"
    and m: "e \<in> set (concat (map elements (sanitize_node (markdown_policy dt da) us keep n)))"
    by (auto simp: sanitize_def)
  from m show ?thesis by (rule sanitize_node_anchors)
qed

lemma sanitize_node_anchor:
  assumes "''a'' \<in> set (allowedTags (markdown_policy dt da))"
  shows "sanitize_node (markdown_policy dt da) us keep (Element ''a'' attribs children) =
     [Element ''a''
        (filter_attributes (markdown_policy dt da) us ''a'' (snd (transform_a ''a'' attribs)))
        (concat (map (sanitize_node (markdown_policy dt da) us keep) children))]"
proof -
  have "apply_transform (markdown_policy dt da) ''a'' attribs
      = (''a'', snd (transform_a ''a'' attribs))"
    using fst_transform_a [of "''a''" attribs]
    by (simp add: apply_transform_markdown prod_eq_iff)
  then show ?thesis
    using assms by (simp add: Let_def)
qed

lemma renderMarkdown_sanitized:
  assumes "trim s \<noteq> []" and "parse s = Returned parsed"
  shows "renderMarkdown parse (sanitizeHtml_filter parse_html serialize us keep) dt da (JStr s) =
     (Returned (serialize (sanitize (markdown_policy dt da) us keep
        (parse_html (case parsed of Some h \<Rightarrow> h | None \<Rightarrow> [])))),
      [MarkedParse s, SanitizeHtml (case parsed of Some h \<Rightarrow> h | None \<Rightarrow> [])])"
  using assms by (simp add: renderMarkdown_def sanitizeHtml_filter_def Let_def)

text \<open>
  C1, as the code has it. The result of renderMarkdown is the text of the fragment
  sanitized under the policy of the pipeline. In every sanitized fragment, an anchor
  whose \<open>href\<close> starts with \<open>http://\<close> or \<open>https://\<close>, the letters in either case, has a
  \<open>rel\<close> with the tokens \<open>noopener\<close> and \<open>noreferrer\<close>, no token twice, and a non-empty
  \<open>target\<close>. The sanitizer applies the transform to every anchor and keeps the \<open>rel\<close> and
  the \<open>target\<close> that the transform wrote. The transform merges the author's \<open>rel\<close> tokens
  with the two, takes the author's non-empty \<open>target\<close> or \<open>_blank\<close> and copies every other
  attribute; the attributes of any other anchor it returns as they are.
\<close>

theorem render_anchor_rel:
  "(trim s \<noteq> [] \<and> parse s = Returned parsed \<longrightarrow>
      renderMarkdown parse (sanitizeHtml_filter parse_html serialize us keep) dt da (JStr s) =
        (Returned (serialize (sanitize (markdown_policy dt da) us keep
           (parse_html (case parsed of Some h \<Rightarrow> h | None \<Rightarrow> [])))),
         [MarkedParse s, SanitizeHtml (case parsed of Some h \<Rightarrow> h | None \<Rightarrow> [])]))
   \<and> (\<forall>(tag, attrs) \<in> set (concat (map elements
           (sanitize (markdown_policy dt da) us keep fragment))).
         \<forall>u. tag = ''a'' \<and> attrs ''href'' = Some u \<and> isExternal u \<longrightarrow>
           (\<exists>rel target. attrs ''rel'' = Some rel
              \<and> ''noopener'' \<in> set (rel_tokens rel) \<and> ''noreferrer'' \<in> set (rel_tokens rel)
              \<and> distinct (rel_tokens rel)
              \<and> attrs ''target'' = Some target \<and> target \<noteq> []))
   \<and> (''a'' \<in> set (allowedTags (markdown_policy dt da)) \<longrightarrow>
        sanitize_node (markdown_policy dt da) us keep (Element ''a'' attribs children) =
          [Element ''a''
             (filter_attributes (markdown_policy dt da) us ''a'' (snd (transform_a ''a'' attribs)))
             (concat (map (sanitize_node (markdown_policy dt da) us keep) children))]
        \<and> filter_attributes (markdown_policy dt da) us ''a'' (snd (transform_a ''a'' attribs)) ''rel''
            = snd (transform_a ''a'' attribs) ''rel''
        \<and> filter_attributes (markdown_policy dt da) us ''a'' (snd (transform_a ''a'' attribs)) ''target''
            = snd (transform_a ''a'' attribs) ''target'')
   \<and> (isExternal (case attribs ''href'' of Some h \<Rightarrow> h | None \<Rightarrow> []) \<longrightarrow>
        (\<exists>rel. snd (transform_a ''a'' attribs) ''rel'' = Some rel
            \<and> ''noopener'' \<in> set (rel_tokens rel) \<and> ''noreferrer'' \<in> set (rel_tokens rel)
            \<and> set (rel_tokens rel) =
                set (rel_tokens (case attribs ''rel'' of Some r \<Rightarrow> r | None \<Rightarrow> []))
                  \<union> {''noopener'', ''noreferrer''}
            \<and> distinct (rel_tokens rel))
        \<and> snd (transform_a ''a'' attribs) ''target'' =
            (case attribs ''target'' of
               None \<Rightarrow> Some ''_blank''
             | Some t \<Rightarrow> if t = [] then Some ''_blank'' else Some t)
        \<and> (\<forall>k. k \<noteq> ''rel'' \<and> k \<noteq> ''target'' \<longrightarrow> snd (transform_a ''a'' attribs) k = attribs k))
   \<and> (\<not> isExternal (case attribs ''href'' of Some h \<Rightarrow> h | None \<Rightarrow> []) \<longrightarrow>
        transform_a ''a'' attribs = (''a'', attribs))"
proof (intro conjI)
  show "trim s \<noteq> [] \<and> parse s = Returned parsed \<longrightarrow>
      renderMarkdown parse (sanitizeHtml_filter parse_html serialize us keep) dt da (JStr s) =
        (Returned (serialize (sanitize (markdown_policy dt da) us keep
           (parse_html (case parsed of Some h \<Rightarrow> h | None \<Rightarrow> [])))),
         [MarkedParse s, SanitizeHtml (case parsed of Some h \<Rightarrow> h | None \<Rightarrow> [])])"
    by (simp add: renderMarkdown_sanitized)
next
  show "\<forall>(tag, attrs) \<in> set (concat (map elements
           (sanitize (markdown_policy dt da) us keep fragment))).
         \<forall>u. tag = ''a'' \<and> attrs ''href'' = Some u \<and> isExternal u \<longrightarrow>
           (\<exists>rel target. attrs ''rel'' = Some rel
              \<and> ''noopener'' \<in> set (rel_tokens rel) \<and> ''noreferrer'' \<in> set (rel_tokens rel)
              \<and> distinct (rel_tokens rel)
              \<and> attrs ''target'' = Some target \<and> target \<noteq> [])"
  proof (intro ballI, clarify)
    fix attrs u
    assume e: "(''a'', attrs) \<in> set (concat (map elements
           (sanitize (markdown_policy dt da) us keep fragment)))"
      and h: "attrs ''href'' = Some u" "isExternal u"
    have "anchor_ok (''a'', attrs)"
      using e by (rule sanitize_anchors)
    then show "\<exists>rel target. attrs ''rel'' = Some rel
              \<and> ''noopener'' \<in> set (rel_tokens rel) \<and> ''noreferrer'' \<in> set (rel_tokens rel)
              \<and> distinct (rel_tokens rel)
              \<and> attrs ''target'' = Some target \<and> target \<noteq> []"
      using h by (cases "attrs ''rel''"; cases "attrs ''target''") (simp_all add: anchor_ok_def)
  qed
next
  show "''a'' \<in> set (allowedTags (markdown_policy dt da)) \<longrightarrow>
        sanitize_node (markdown_policy dt da) us keep (Element ''a'' attribs children) =
          [Element ''a''
             (filter_attributes (markdown_policy dt da) us ''a'' (snd (transform_a ''a'' attribs)))
             (concat (map (sanitize_node (markdown_policy dt da) us keep) children))]
        \<and> filter_attributes (markdown_policy dt da) us ''a'' (snd (transform_a ''a'' attribs)) ''rel''
            = snd (transform_a ''a'' attribs) ''rel''
        \<and> filter_attributes (markdown_policy dt da) us ''a'' (snd (transform_a ''a'' attribs)) ''target''
            = snd (transform_a ''a'' attribs) ''target''"
    using sanitize_node_anchor [of dt da us keep attribs children]
    by (simp add: filter_a_rel_target)
next
  show "isExternal (case attribs ''href'' of Some h \<Rightarrow> h | None \<Rightarrow> []) \<longrightarrow>
        (\<exists>rel. snd (transform_a ''a'' attribs) ''rel'' = Some rel
            \<and> ''noopener'' \<in> set (rel_tokens rel) \<and> ''noreferrer'' \<in> set (rel_tokens rel)
            \<and> set (rel_tokens rel) =
                set (rel_tokens (case attribs ''rel'' of Some r \<Rightarrow> r | None \<Rightarrow> []))
                  \<union> {''noopener'', ''noreferrer''}
            \<and> distinct (rel_tokens rel))
        \<and> snd (transform_a ''a'' attribs) ''target'' =
            (case attribs ''target'' of
               None \<Rightarrow> Some ''_blank''
             | Some t \<Rightarrow> if t = [] then Some ''_blank'' else Some t)
        \<and> (\<forall>k. k \<noteq> ''rel'' \<and> k \<noteq> ''target'' \<longrightarrow> snd (transform_a ''a'' attribs) k = attribs k)"
    using transform_a_rel [of attribs "''a''"] transform_a_target [of attribs "''a''"]
    by (simp add: transform_a_others)
next
  show "\<not> isExternal (case attribs ''href'' of Some h \<Rightarrow> h | None \<Rightarrow> []) \<longrightarrow>
        transform_a ''a'' attribs = (''a'', attribs)"
    by (simp add: transform_a_local)
qed

lemma rel_tokens_example:
  "rel_tokens ''nofollow noopener'' = [''nofollow'', ''noopener'']"
  by (simp add: rel_tokens_def split_ws_def trim_def is_space_def)

theorem render_anchor_rel_witness:
  "trim ''[x](HTTPS://example.com/a)'' \<noteq> []
   \<and> renderMarkdown (\<lambda>s. Returned (Some s))
        (sanitizeHtml_filter
          (\<lambda>html. [Element ''a'' [''href'' \<mapsto> ''HTTPS://example.com/a'', ''rel'' \<mapsto> ''nofollow noopener'']
                      [Text ''x'']])
          (\<lambda>fragment. concat (map (\<lambda>(tag, attrs).
              tag @ '':'' @ (case attrs ''rel'' of Some r \<Rightarrow> r | None \<Rightarrow> [])
                @ '':'' @ (case attrs ''target'' of Some t \<Rightarrow> t | None \<Rightarrow> []))
            (concat (map elements fragment))))
          (\<lambda>u. None) (\<lambda>tag. True))
        [''a'', ''p''] [] (JStr ''[x](HTTPS://example.com/a)'')
       = (Returned ''a:nofollow noopener noreferrer:_blank'',
          [MarkedParse ''[x](HTTPS://example.com/a)'', SanitizeHtml ''[x](HTTPS://example.com/a)''])
   \<and> ''a'' \<in> set (allowedTags (markdown_policy [''a'', ''p''] []))
   \<and> isExternal ''HTTPS://example.com/a''
   \<and> \<not> isExternal ''/posts/1''
   \<and> transform_a ''a'' [''href'' \<mapsto> ''/posts/1''] = (''a'', [''href'' \<mapsto> ''/posts/1''])"
  using render_anchor_rel [of "''[x](HTTPS://example.com/a)''" "\<lambda>s. Returned (Some s)"
      "Some ''[x](HTTPS://example.com/a)''"
      "\<lambda>html. [Element ''a'' [''href'' \<mapsto> ''HTTPS://example.com/a'', ''rel'' \<mapsto> ''nofollow noopener'']
                      [Text ''x'']]"
      "\<lambda>fragment. concat (map (\<lambda>(tag, attrs).
              tag @ '':'' @ (case attrs ''rel'' of Some r \<Rightarrow> r | None \<Rightarrow> [])
                @ '':'' @ (case attrs ''target'' of Some t \<Rightarrow> t | None \<Rightarrow> []))
            (concat (map elements fragment)))"
      "\<lambda>u. None" "\<lambda>tag. True" "[''a'', ''p'']" "[]"
      "[Element ''a'' [''href'' \<mapsto> ''HTTPS://example.com/a'', ''rel'' \<mapsto> ''nofollow noopener'']
                      [Text ''x'']]"
      "[''href'' \<mapsto> ''/posts/1'']" "[]"]
  by (simp add: renderMarkdown_def sanitizeHtml_filter_def sanitize_def markdown_policy_def
      source_tags_def source_attributes_def new_Set_def set_add_def apply_transform_def
      transform_a_def isExternal_def toLowerCase_def toLowerCase_char_def filter_attributes_def
      attribute_kept_def schemes_for_def rel_tokens_example trim_def is_space_def Let_def)

text \<open>
  The claim C1 as stated fails for an absolute URL that the test of the transform does
  not match: the anchor with the \<open>href\<close> \<open>https:/host\<close> keeps its \<open>href\<close> and gets neither
  \<open>rel\<close> nor \<open>target\<close>.
\<close>

theorem render_anchor_rel_counterexample:
  "absolute_http_url ''https:/host''
   \<and> \<not> isExternal ''https:/host''
   \<and> map (\<lambda>(tag, attrs). (tag, attrs ''href'', attrs ''rel'', attrs ''target''))
        (concat (map elements
          (sanitize (markdown_policy [''a'', ''p''] []) (\<lambda>u. Some ''https'') (\<lambda>tag. True)
            [Element ''a'' [''href'' \<mapsto> ''https:/host''] [Text ''x'']])))
       = [(''a'', Some ''https:/host'', None, None)]
   \<and> renderMarkdown (\<lambda>s. Returned (Some s))
        (sanitizeHtml_filter
          (\<lambda>html. [Element ''a'' [''href'' \<mapsto> ''https:/host''] [Text ''x'']])
          (\<lambda>fragment. concat (map (\<lambda>(tag, attrs).
              tag @ '':'' @ (case attrs ''rel'' of Some r \<Rightarrow> r | None \<Rightarrow> [])
                @ '':'' @ (case attrs ''target'' of Some t \<Rightarrow> t | None \<Rightarrow> []))
            (concat (map elements fragment))))
          (\<lambda>u. Some ''https'') (\<lambda>tag. True))
        [''a'', ''p''] [] (JStr ''[x](https:/host)'')
       = (Returned ''a::'', [MarkedParse ''[x](https:/host)'', SanitizeHtml ''[x](https:/host)''])"
  by (simp add: absolute_http_url_def renderMarkdown_def sanitizeHtml_filter_def sanitize_def
      markdown_policy_def source_tags_def source_attributes_def new_Set_def set_add_def
      apply_transform_def transform_a_def isExternal_def toLowerCase_def toLowerCase_char_def
      filter_attributes_def attribute_kept_def schemes_for_def trim_def is_space_def Let_def)

end
